theory Spec2Isabelle
  imports Main "HOL-Library.Word" "HOL-Library.Sublist"
begin

section \<open>The dictionary server (dict\_server.c)\<close>

text \<open>
  The server keeps one file per key in its working directory and speaks a line protocol
  (GET, SET, DEL) over one TCP connection at a time. This theory embeds the command
  parser \<open>server_op_check\<close>, the three backend operations, the response stage
  \<open>server_op_process\<close> and the body of the receive loop of \<open>dict_server_start\<close>.

  Conventions. A value of type \<open>string\<close> stands for the characters of a NUL-terminated
  C string before its terminator; a \<open>char *\<close> that may be \<open>NULL\<close> is a
  \<open>string option\<close>, and a pointer to a struct that may be \<open>NULL\<close> is an option of the
  struct's record. Where the C code has undefined behaviour that stops the model from
  saying what happens next (a \<open>strlen\<close> of \<open>NULL\<close>, a \<open>strcat\<close> beyond the array), the
  function returns \<open>None\<close>.
\<close>

subsection \<open>Macros and types\<close>

definition SERVER_BUFFER_SIZE :: nat where
  "SERVER_BUFFER_SIZE = 128"

definition SERVER_MAX_ARGS :: nat where
  "SERVER_MAX_ARGS = 2"

definition SERVER_GET_OP_STRING :: string where
  "SERVER_GET_OP_STRING = ''GET''"

definition SERVER_SET_OP_STRING :: string where
  "SERVER_SET_OP_STRING = ''SET''"

definition SERVER_DEL_OP_STRING :: string where
  "SERVER_DEL_OP_STRING = ''DEL''"

text \<open>The NUL character, and \<open>sizeof\<close> of a string literal, which counts the terminator.\<close>

definition NUL :: char where
  "NUL = CHR 0x00"

definition sizeof_literal :: "string \<Rightarrow> nat" where
  "sizeof_literal s = length s + 1"

definition SERVER_OK_RESPONSE :: string where
  "SERVER_OK_RESPONSE = ''OK'' @ [CHR 0x0A]"

definition SERVER_NOTFOUND_RESPONSE :: string where
  "SERVER_NOTFOUND_RESPONSE = ''NOTFOUND'' @ [CHR 0x0A]"

datatype server_op = SERVER_OP_NONE | SERVER_OP_SET | SERVER_OP_GET | SERVER_OP_DEL

datatype server_err_t =
    SERVER_OK
  | SERVER_E_OS
  | SERVER_E_NULL
  | SERVER_E_SIZE
  | SERVER_E_BUFFER
  | SERVER_E_INVALID
  | SERVER_E_MISSING
  | SERVER_E_TOO_MANY
  | SERVER_E_NOT_FOUND

text \<open>The numeric value of each enumerator, as \<open>sprintf("%d")\<close> prints it.\<close>

fun err_code :: "server_err_t \<Rightarrow> nat" where
  "err_code SERVER_OK = 0"
| "err_code SERVER_E_OS = 1"
| "err_code SERVER_E_NULL = 2"
| "err_code SERVER_E_SIZE = 3"
| "err_code SERVER_E_BUFFER = 4"
| "err_code SERVER_E_INVALID = 5"
| "err_code SERVER_E_MISSING = 6"
| "err_code SERVER_E_TOO_MANY = 7"
| "err_code SERVER_E_NOT_FOUND = 8"

text \<open>
  \<open>server_op_t\<close>: the operation and the array \<open>args[SERVER_MAX_ARGS]\<close> of two
  pointers, \<open>args[0]\<close> the first component of the pair and \<open>args[1]\<close> the second;
  \<open>None\<close> is a \<open>NULL\<close> slot.
\<close>

record server_op_t =
  op :: server_op
  args :: "string option \<times> string option"

text \<open>\<open>memset(digest, 0, sizeof(*digest))\<close>.\<close>

definition zero_digest :: server_op_t where
  "zero_digest = \<lparr>op = SERVER_OP_NONE, args = (None, None)\<rparr>"

subsection \<open>The C library functions the parser calls\<close>

text \<open>
  \<open>strstr(haystack, needle)\<close>: the suffix of the haystack that starts at the first
  occurrence of the needle, or \<open>None\<close> for \<open>NULL\<close>.
\<close>

fun strstr :: "string \<Rightarrow> string \<Rightarrow> string option" where
  "strstr [] needle = (if needle = [] then Some [] else None)"
| "strstr (c # cs) needle =
     (if prefix needle (c # cs) then Some (c # cs) else strstr cs needle)"

text \<open>
  The C string at the start of the bytes \<open>raw\<close>: what the string functions see of a
  buffer, the bytes before its first NUL.
\<close>

definition c_string :: "string \<Rightarrow> string" where
  "c_string raw = takeWhile (\<lambda>c. c \<noteq> NUL) raw"

text \<open>The delimiter set \<open>" \n"\<close> of the parser.\<close>

definition is_delim :: "char \<Rightarrow> bool" where
  "is_delim c = (c = CHR '' '' \<or> c = CHR 0x0A)"

text \<open>
  \<open>strtok_r(temp, delim, &temp)\<close> with a non-null first argument, as the parser always
  calls it: skip the leading delimiters; at the end of the string return \<open>NULL\<close>
  (\<open>None\<close>); otherwise the token runs to the next delimiter, which is overwritten with
  NUL, and the save pointer is left after it (or at the end of the string). The result is
  the token and the string the save pointer then points to.
\<close>

definition strtok_r :: "string \<Rightarrow> (string \<times> string) option" where
  "strtok_r s =
     (let s1 = dropWhile is_delim s in
      if s1 = [] then None
      else Some (takeWhile (\<lambda>c. \<not> is_delim c) s1,
                 drop 1 (dropWhile (\<lambda>c. \<not> is_delim c) s1)))"

subsection \<open>server\_op\_check\<close>

text \<open>
  The state of the argument loop: the counter \<open>op_args\<close>, the two slots of
  \<open>digest->args\<close>, and the stores the loop made at an index outside the array
  (\<open>stray\<close>, index and token, in program order). C gives no meaning to such a store;
  the model records it and lets the loop go on, which is what happens when the store
  lands in memory the function does not use.
\<close>

record arg_loop =
  op_args :: nat
  slots :: "string option \<times> string option"
  stray :: "(nat \<times> string) list"

text \<open>
  \<open>digest->args[op_args] = token\<close>: indices 0 and 1 are the two slots of the array, any
  other index is outside it.
\<close>

definition store_arg :: "arg_loop \<Rightarrow> string \<Rightarrow> arg_loop" where
  "store_arg st token =
     (if op_args st = 0 then st\<lparr>slots := (Some token, snd (slots st))\<rparr>
      else if op_args st = 1 then st\<lparr>slots := (fst (slots st), Some token)\<rparr>
      else st\<lparr>stray := stray st @ [(op_args st, token)]\<rparr>)"

text \<open>
  The loop \<open>while ((token = strtok_r(temp, delim, &temp)))\<close>. The result is the early
  return value, if the loop returned, and the state the loop left.
\<close>

function server_op_check_loop :: "string \<Rightarrow> arg_loop \<Rightarrow> server_err_t option \<times> arg_loop" where
  "server_op_check_loop temp st =
     (case strtok_r temp of
        None \<Rightarrow> (None, st)
      | Some (token, temp') \<Rightarrow>
          if op_args st > SERVER_MAX_ARGS then (Some SERVER_E_TOO_MANY, st)
          else server_op_check_loop temp' ((store_arg st token)\<lparr>op_args := op_args st + 1\<rparr>))"
  by pat_completeness auto
termination
proof (relation "measure (\<lambda>(temp, st). length temp)")
  show "wf (measure (\<lambda>(temp, st). length temp))" by simp
next
  fix temp :: string and st :: arg_loop and x2 token temp'
  assume tok: "strtok_r temp = Some x2" and x2: "(token, temp') = x2"
  let ?s1 = "dropWhile is_delim temp"
  from tok x2 have ne: "?s1 \<noteq> []" and t': "temp' = drop 1 (dropWhile (\<lambda>c. \<not> is_delim c) ?s1)"
    by (auto simp: strtok_r_def Let_def split: if_splits)
  have "length temp' \<le> length (dropWhile (\<lambda>c. \<not> is_delim c) ?s1) - 1"
    by (simp add: t')
  moreover have "length (dropWhile (\<lambda>c. \<not> is_delim c) ?s1) \<le> length ?s1"
    by (rule length_dropWhile_le)
  moreover have "length ?s1 \<le> length temp" by (rule length_dropWhile_le)
  moreover have "0 < length ?s1" using ne by simp
  ultimately have "length temp' < length temp" by linarith
  then show "((temp', (store_arg st token)\<lparr>op_args := op_args st + 1\<rparr>), temp, st)
             \<in> measure (\<lambda>(temp, st). length temp)"
    by simp
qed

declare server_op_check_loop.simps [simp del]

text \<open>
  The conversion of the \<open>int\<close> argument \<open>length\<close> to \<open>size_t\<close> in the comparison with
  \<open>sizeof(SERVER_GET_OP_STRING)\<close>: a 64-bit \<open>size_t\<close>, so a negative length becomes a
  large unsigned value.
\<close>

definition size_t_of_int :: "32 word \<Rightarrow> nat" where
  "size_t_of_int n = nat (sint n mod 2 ^ 64)"

text \<open>
  The result of the parser: its return value, the digest the pointer refers to after the
  call (\<open>None\<close> for a null pointer), and the stores made outside the array.
\<close>

record check_result =
  ret :: server_err_t
  digest :: "server_op_t option"
  overrun :: "(nat \<times> string) list"

text \<open>The three keyword searches, each made only while the operation is still NONE.\<close>

definition detect_op :: "string \<Rightarrow> server_op" where
  "detect_op b =
     (let op0 = SERVER_OP_NONE;
          op1 = (if op0 = SERVER_OP_NONE
                 then (if strstr b SERVER_GET_OP_STRING \<noteq> None then SERVER_OP_GET else op0)
                 else op0);
          op2 = (if op1 = SERVER_OP_NONE
                 then (if strstr b SERVER_SET_OP_STRING \<noteq> None then SERVER_OP_SET else op1)
                 else op1);
          op3 = (if op2 = SERVER_OP_NONE
                 then (if strstr b SERVER_DEL_OP_STRING \<noteq> None then SERVER_OP_DEL else op2)
                 else op2)
      in op3)"

definition server_op_check :: "string option \<Rightarrow> 32 word \<Rightarrow> server_op_t option \<Rightarrow> check_result" where
  "server_op_check buffer len dg =
     (if size_t_of_int len < sizeof_literal SERVER_GET_OP_STRING
      then \<lparr>ret = SERVER_E_SIZE, digest = dg, overrun = []\<rparr>
      else if buffer = None \<or> len = 0
      then \<lparr>ret = SERVER_E_NULL, digest = dg, overrun = []\<rparr>
      else if dg = None
      then \<lparr>ret = SERVER_E_NULL, digest = dg, overrun = []\<rparr>
      else
        (case buffer of
           None \<Rightarrow> \<lparr>ret = SERVER_E_NULL, digest = dg, overrun = []\<rparr>
         | Some b \<Rightarrow>
             let kind = detect_op b in
             if kind = SERVER_OP_NONE
             then \<lparr>ret = SERVER_E_INVALID, digest = Some zero_digest, overrun = []\<rparr>
             else
               let temp = (case strtok_r b of None \<Rightarrow> [] | Some (token, temp') \<Rightarrow> temp');
                   (early, st) = server_op_check_loop temp
                      \<lparr>op_args = 0, slots = args zero_digest, stray = []\<rparr>;
                   d = \<lparr>op = kind, args = slots st\<rparr>
               in (case early of
                     Some e \<Rightarrow> \<lparr>ret = e, digest = Some d, overrun = stray st\<rparr>
                   | None \<Rightarrow>
                       if kind = SERVER_OP_SET \<and> op_args st \<noteq> SERVER_MAX_ARGS
                       then \<lparr>ret = SERVER_E_MISSING, digest = Some d, overrun = stray st\<rparr>
                       else if (kind = SERVER_OP_GET \<or> kind = SERVER_OP_DEL) \<and> op_args st \<noteq> 1
                       then \<lparr>ret = SERVER_E_MISSING, digest = Some d, overrun = stray st\<rparr>
                       else \<lparr>ret = SERVER_OK, digest = Some d, overrun = stray st\<rparr>)))"

subsection \<open>The operating system\<close>

text \<open>
  The files of the working directory: a map from the name a file is opened with to its
  contents. The system calls are not code of the server; their return values are taken
  from an environment, so that every outcome the server tests for can occur, and their
  effect on the files is the one of POSIX for that return value.
  \<^item> \<open>open_ret\<close>: what \<open>open\<close> returns for a path it can open (negative: it fails);
  \<^item> \<open>write_ret\<close>, \<open>read_ret\<close>: what \<open>write\<close> and \<open>read\<close> return, given the number of
    bytes asked for or available (negative: an error; less: a short transfer);
  \<^item> \<open>remove_ret\<close>: what \<open>remove\<close> returns for a file that exists (0: removed);
  \<^item> \<open>send_ret\<close>: what the n-th \<open>send\<close> of one request returns for the given bytes.
\<close>

type_synonym fs = "string \<rightharpoonup> string"

record os_env =
  open_ret :: int
  write_ret :: "nat \<Rightarrow> int"
  read_ret :: "nat \<Rightarrow> int"
  remove_ret :: int
  send_ret :: "nat \<Rightarrow> string \<Rightarrow> int"

text \<open>\<open>open(path, O_WRONLY | O_CREAT | O_TRUNC, 0644)\<close>: a null path is refused.\<close>

definition sys_open_creat_trunc :: "os_env \<Rightarrow> fs \<Rightarrow> string option \<Rightarrow> int \<times> fs" where
  "sys_open_creat_trunc env files path =
     (case path of
        None \<Rightarrow> (- 1, files)
      | Some p \<Rightarrow>
          if open_ret env < 0 then (open_ret env, files)
          else (open_ret env, files(p \<mapsto> [])))"

text \<open>\<open>open(path, O_RDONLY)\<close>: fails for a null path and for a file that does not exist.\<close>

definition sys_open_rdonly :: "os_env \<Rightarrow> fs \<Rightarrow> string option \<Rightarrow> int" where
  "sys_open_rdonly env files path =
     (case path of
        None \<Rightarrow> - 1
      | Some p \<Rightarrow> (case files p of None \<Rightarrow> - 1 | Some content \<Rightarrow> open_ret env))"

text \<open>
  \<open>write(fd, buf, count)\<close> on the file just opened at offset 0: the return value is never
  more than \<open>count\<close>, and that many bytes of \<open>buf\<close> replace the start of the file.
\<close>

definition write_count :: "os_env \<Rightarrow> nat \<Rightarrow> int" where
  "write_count env count = min (write_ret env count) (int count)"

definition sys_write :: "os_env \<Rightarrow> fs \<Rightarrow> string option \<Rightarrow> string \<Rightarrow> nat \<Rightarrow> int \<times> fs" where
  "sys_write env files path buf count =
     (case path of
        None \<Rightarrow> (- 1, files)
      | Some p \<Rightarrow>
          let cnt = write_count env count;
              old = (case files p of None \<Rightarrow> [] | Some content \<Rightarrow> content)
          in if cnt > 0
             then (cnt, files(p \<mapsto> take (nat cnt) buf @ drop (nat cnt) old))
             else (cnt, files))"

text \<open>
  \<open>read(fd, buffer, count)\<close> on the file just opened at offset 0: the return value is
  never more than the bytes available (the first \<open>count\<close> bytes of the file), and that
  many bytes of the file replace the start of the buffer.
\<close>

definition read_count :: "os_env \<Rightarrow> string \<Rightarrow> nat \<Rightarrow> int" where
  "read_count env content count =
     min (read_ret env (length (take count content))) (int (length (take count content)))"

definition sys_read :: "os_env \<Rightarrow> fs \<Rightarrow> string option \<Rightarrow> string \<Rightarrow> nat \<Rightarrow> int \<times> string" where
  "sys_read env files path buffer count =
     (case path of
        None \<Rightarrow> (- 1, buffer)
      | Some p \<Rightarrow>
          (case files p of
             None \<Rightarrow> (- 1, buffer)
           | Some content \<Rightarrow>
               let cnt = read_count env content count
               in if cnt > 0
                  then (cnt, take (nat cnt) (take count content) @ drop (nat cnt) buffer)
                  else (cnt, buffer)))"

text \<open>\<open>remove(path)\<close>: fails for a null path and for a file that does not exist.\<close>

definition sys_remove :: "os_env \<Rightarrow> fs \<Rightarrow> string option \<Rightarrow> int \<times> fs" where
  "sys_remove env files path =
     (case path of
        None \<Rightarrow> (- 1, files)
      | Some p \<Rightarrow>
          (case files p of
             None \<Rightarrow> (- 1, files)
           | Some content \<Rightarrow>
               if remove_ret env = 0 then (0, files(p := None))
               else (remove_ret env, files)))"

text \<open>
  \<open>send(socket, buf, n, MSG_DONTWAIT)\<close>, the \<open>i\<close>-th of a request, with \<open>msg\<close> the \<open>n\<close>
  bytes at \<open>buf\<close>: the return value and the bytes that went out on the socket.
\<close>

definition sys_send :: "os_env \<Rightarrow> nat \<Rightarrow> string \<Rightarrow> int \<times> string list" where
  "sys_send env i msg =
     (let rt = min (send_ret env i msg) (int (length msg))
      in if rt > 0 then (rt, [take (nat rt) msg]) else (rt, []))"

subsection \<open>The backend operations\<close>

text \<open>
  \<open>server_write_key_value\<close>. \<open>strlen(digest->args[1])\<close> of a null pointer has no defined
  result: \<open>None\<close>.
\<close>

definition server_write_key_value ::
  "os_env \<Rightarrow> fs \<Rightarrow> server_op_t option \<Rightarrow> (server_err_t \<times> fs) option" where
  "server_write_key_value env files dg =
     (case dg of
        None \<Rightarrow> Some (SERVER_E_NULL, files)
      | Some d \<Rightarrow>
          let (fd, files1) = sys_open_creat_trunc env files (fst (args d)) in
          if fd < 0 then Some (SERVER_E_OS, files1)
          else
            (case snd (args d) of
               None \<Rightarrow> None
             | Some v \<Rightarrow>
                 let (cnt, files2) = sys_write env files1 (fst (args d)) v (length v) in
                 if cnt = 0 then Some (SERVER_E_OS, files2)
                 else Some (SERVER_OK, files2)))"

text \<open>\<open>server_read_key_value\<close>: the return value and the caller's buffer after the call.\<close>

definition server_read_key_value ::
  "os_env \<Rightarrow> fs \<Rightarrow> server_op_t option \<Rightarrow> string \<Rightarrow> nat \<Rightarrow> server_err_t \<times> string" where
  "server_read_key_value env files dg buffer buffer_size =
     (case dg of
        None \<Rightarrow> (SERVER_E_NULL, buffer)
      | Some d \<Rightarrow>
          let fd = sys_open_rdonly env files (fst (args d)) in
          if fd < 0 then (SERVER_E_NOT_FOUND, buffer)
          else
            let (cnt, buffer1) = sys_read env files (fst (args d)) buffer buffer_size in
            if cnt = 0 then (SERVER_E_NOT_FOUND, buffer1)
            else (SERVER_OK, buffer1))"

definition server_delete_key_value ::
  "os_env \<Rightarrow> fs \<Rightarrow> server_op_t option \<Rightarrow> server_err_t \<times> fs" where
  "server_delete_key_value env files dg =
     (case dg of
        None \<Rightarrow> (SERVER_E_NULL, files)
      | Some d \<Rightarrow>
          let (status, files1) = sys_remove env files (fst (args d)) in
          if status \<noteq> 0 then (SERVER_E_NOT_FOUND, files1)
          else (SERVER_OK, files1))"

subsection \<open>server\_op\_process\<close>

text \<open>
  The C library on the 128-byte array \<open>buffer\<close>, which is raw memory here: a list of its
  bytes. \<open>strlen\<close> needs a terminator inside the array, \<open>strcat\<close> and \<open>sprintf\<close> need
  room for what they write and its terminator; otherwise they run past the array and the
  result is \<open>None\<close>.
\<close>

definition strlen :: "string \<Rightarrow> nat option" where
  "strlen mem = (if NUL \<in> set mem then Some (length (takeWhile (\<lambda>c. c \<noteq> NUL) mem)) else None)"

definition strcat :: "string \<Rightarrow> string \<Rightarrow> string option" where
  "strcat mem src =
     (case strlen mem of
        None \<Rightarrow> None
      | Some n \<Rightarrow>
          if n + length src + 1 \<le> length mem
          then Some (take n mem @ src @ [NUL] @ drop (n + length src + 1) mem)
          else None)"

text \<open>The decimal digits \<open>%d\<close> prints for a value that is not negative.\<close>

fun decimal :: "nat \<Rightarrow> string" where
  "decimal n =
     (if n < 10 then [''0123456789'' ! n]
      else decimal (n div 10) @ [''0123456789'' ! (n mod 10)])"

text \<open>\<open>sprintf(buffer, "ERROR:%d", err)\<close>.\<close>

definition sprintf_error :: "string \<Rightarrow> server_err_t \<Rightarrow> string option" where
  "sprintf_error mem err =
     (let out = ''ERROR:'' @ decimal (err_code err)
      in if length out + 1 \<le> length mem
         then Some (out @ [NUL] @ drop (length out + 1) mem)
         else None)"

text \<open>
  The \<open>sizeof(literal)\<close> bytes at a string literal: its characters and the terminator.
\<close>

definition literal_bytes :: "string \<Rightarrow> string" where
  "literal_bytes s = take (sizeof_literal s) (s @ [NUL])"

text \<open>
  The result of \<open>server_op_process\<close>: its return value, the bytes that went out on the
  client socket (one element per \<open>send\<close> that sent something, in order) and the files
  after the call.
\<close>

record process_result =
  p_ret :: server_err_t
  sent :: "string list"
  store :: fs

text \<open>
  The \<open>if\<close>/\<open>else if\<close> chain that calls the backend: the error, the array \<open>buffer\<close> and
  the files after it.
\<close>

definition server_op_backend ::
  "os_env \<Rightarrow> fs \<Rightarrow> server_op_t \<Rightarrow> string \<Rightarrow> (server_err_t \<times> string \<times> fs) option" where
  "server_op_backend env files d buffer =
     (if op d = SERVER_OP_SET
      then (case server_write_key_value env files (Some d) of
              None \<Rightarrow> None
            | Some (err, files1) \<Rightarrow> Some (err, buffer, files1))
      else if op d = SERVER_OP_GET
      then (let (err, buffer1) = server_read_key_value env files (Some d) buffer (length buffer)
            in Some (err, buffer1, files))
      else if op d = SERVER_OP_DEL
      then (let (err, files1) = server_delete_key_value env files (Some d)
            in Some (err, buffer, files1))
      else Some (SERVER_E_NOT_FOUND, buffer, files))"

definition server_op_process :: "os_env \<Rightarrow> fs \<Rightarrow> server_op_t option \<Rightarrow> process_result option" where
  "server_op_process env files dg =
     (case dg of
        None \<Rightarrow> Some \<lparr>p_ret = SERVER_E_NULL, sent = [], store = files\<rparr>
      | Some d \<Rightarrow>
          (case server_op_backend env files d (replicate 128 NUL) of
             None \<Rightarrow> None
           | Some (err, buffer, files1) \<Rightarrow>
               if err = SERVER_OK then
                 let (rt, out1) = sys_send env 0 (literal_bytes SERVER_OK_RESPONSE);
                     err1 = (if rt \<le> 0 then SERVER_E_OS else err)
                 in if op d = SERVER_OP_GET \<and> rt > 0
                    then (case strcat buffer [CHR 0x0A] of
                            None \<Rightarrow> None
                          | Some buffer1 \<Rightarrow>
                              (case strlen buffer1 of
                                 None \<Rightarrow> None
                               | Some n \<Rightarrow>
                                   let (rt2, out2) = sys_send env 1 (take n buffer1);
                                       err2 = (if rt2 \<le> 0 then SERVER_E_OS else err1)
                                   in Some \<lparr>p_ret = err2, sent = out1 @ out2, store = files1\<rparr>))
                    else Some \<lparr>p_ret = err1, sent = out1, store = files1\<rparr>
               else if err = SERVER_E_NOT_FOUND then
                 let (rt, out1) = sys_send env 0 (literal_bytes SERVER_NOTFOUND_RESPONSE);
                     err1 = (if rt \<le> 0 then SERVER_E_OS else err)
                 in Some \<lparr>p_ret = err1, sent = out1, store = files1\<rparr>
               else
                 (case sprintf_error buffer err of
                    None \<Rightarrow> None
                  | Some buffer1 \<Rightarrow>
                      (case strlen buffer1 of
                         None \<Rightarrow> None
                       | Some n \<Rightarrow>
                           let (rt, out1) = sys_send env 0 (take n buffer1);
                               err1 = (if rt \<le> 0 then SERVER_E_OS else err)
                           in Some \<lparr>p_ret = err1, sent = out1, store = files1\<rparr>))))"

subsection \<open>The receive loop of dict\_server\_start\<close>

text \<open>
  The branch \<open>len > 0\<close> of the loop, for the bytes \<open>recv\<close> delivered (at most
  \<open>SERVER_BUFFER_SIZE\<close> of them): \<open>buffer[len] = 0\<close>, so the C string at \<open>buffer\<close> is
  the received bytes up to their first NUL; with \<open>len = SERVER_BUFFER_SIZE\<close> that store is
  outside the array (\<open>None\<close>). Then the parser, and \<open>server_op_process\<close> only if the
  parser returned 0; otherwise the error is logged and nothing is sent. The result holds
  the final value of \<open>err\<close>. Logging is not modelled.
\<close>

definition dict_server_start_recv :: "os_env \<Rightarrow> fs \<Rightarrow> string \<Rightarrow> process_result option" where
  "dict_server_start_recv env files received =
     (let len = length received in
      if SERVER_BUFFER_SIZE \<le> len then None
      else
        let buffer = takeWhile (\<lambda>c. c \<noteq> NUL) received;
            r = server_op_check (Some buffer) (of_nat len) (Some zero_digest)
        in if ret r \<noteq> SERVER_OK
           then Some \<lparr>p_ret = ret r, sent = [], store = files\<rparr>
           else server_op_process env files (digest r))"

text \<open>An environment in which no system call fails or falls short.\<close>

definition no_fault :: os_env where
  "no_fault = \<lparr>open_ret = 3, write_ret = (\<lambda>n. int n), read_ret = (\<lambda>n. int n),
               remove_ret = 0, send_ret = (\<lambda>i msg. int (length msg))\<rparr>"

text \<open>The same environment, except that \<open>write\<close> fails with -1.\<close>

definition write_fails :: os_env where
  "write_fails = no_fault\<lparr>write_ret := (\<lambda>n. - 1)\<rparr>"

text \<open>Environments in which one system call fails with -1 and the others do not.\<close>

definition open_fails :: os_env where
  "open_fails = no_fault\<lparr>open_ret := - 1\<rparr>"

definition read_fails :: os_env where
  "read_fails = no_fault\<lparr>read_ret := (\<lambda>n. - 1)\<rparr>"

text \<open>A working directory without files.\<close>

definition no_files :: fs where
  "no_files = (\<lambda>name. None)"

text \<open>
  SET with a key and a value, then GET with the same key into \<open>buffer\<close>, as two validated
  commands run one after the other: the two return values and the buffer after GET.
\<close>

definition set_then_get ::
  "os_env \<Rightarrow> fs \<Rightarrow> string \<Rightarrow> string \<Rightarrow> string \<Rightarrow> (server_err_t \<times> server_err_t \<times> string) option" where
  "set_then_get env files k v buffer =
     (case server_write_key_value env files
             (Some \<lparr>op = SERVER_OP_SET, args = (Some k, Some v)\<rparr>) of
        None \<Rightarrow> None
      | Some (err1, files1) \<Rightarrow>
          let (err2, buffer1) =
                server_read_key_value env files1
                  (Some \<lparr>op = SERVER_OP_GET, args = (Some k, None)\<rparr>) buffer (length buffer)
          in Some (err1, err2, buffer1))"

text \<open>
  The invariant of the argument loop: a slot that the counter has passed is filled,
  nothing is stored outside the array while the counter is at most 2, and a stored token
  is not empty and holds no delimiter.
\<close>

definition token_ok :: "string option \<Rightarrow> bool" where
  "token_ok a = (case a of None \<Rightarrow> True | Some t \<Rightarrow> t \<noteq> [] \<and> \<not> list_ex is_delim t)"

definition args_filled :: "arg_loop \<Rightarrow> bool" where
  "args_filled st =
     ((if 1 \<le> op_args st then fst (slots st) \<noteq> None else True) \<and>
      (if 2 \<le> op_args st then snd (slots st) \<noteq> None else True) \<and>
      (if op_args st \<le> 2 then stray st = [] else True) \<and>
      token_ok (fst (slots st)) \<and> token_ok (snd (slots st)))"

section \<open>Properties of the parser\<close>

subsection \<open>Auxiliary facts\<close>

lemma size_t_of_int_less_4: "size_t_of_int n < 4 \<longleftrightarrow> 0 \<le> sint n \<and> sint n < 4"
proof (cases "0 \<le> sint n")
  case True
  have "sint n < 2 ^ 31" using sint_lt [of n] by simp
  with True have "sint n mod 2 ^ 64 = sint n" by simp
  with True show ?thesis by (simp add: size_t_of_int_def) linarith
next
  case False
  have lo: "- (2 ^ 31) \<le> sint n" using sint_ge [of n] by simp
  have "(sint n + 2 ^ 64) mod 2 ^ 64 = sint n + 2 ^ 64"
    using lo False by (intro mod_pos_pos_trivial) simp_all
  then have "sint n mod 2 ^ 64 = sint n + 2 ^ 64" by simp
  with lo False show ?thesis by (simp add: size_t_of_int_def)
qed

lemma size_check_iff:
  "size_t_of_int n < sizeof_literal SERVER_GET_OP_STRING \<longleftrightarrow> 0 \<le> sint n \<and> sint n < 4"
proof -
  have "sizeof_literal SERVER_GET_OP_STRING = 4"
    by (simp add: sizeof_literal_def SERVER_GET_OP_STRING_def)
  then show ?thesis by (simp only: size_t_of_int_less_4)
qed

text \<open>\<open>strstr\<close> finds the needle exactly when it occurs somewhere in the haystack.\<close>

lemma strstr_sublist: "strstr h n \<noteq> None \<longleftrightarrow> sublist n h"
  by (induction h) (auto simp: sublist_Cons_right)

lemma detect_op_cases:
  "detect_op b =
     (if sublist SERVER_GET_OP_STRING b then SERVER_OP_GET
      else if sublist SERVER_SET_OP_STRING b then SERVER_OP_SET
      else if sublist SERVER_DEL_OP_STRING b then SERVER_OP_DEL
      else SERVER_OP_NONE)"
  using strstr_sublist [of b SERVER_GET_OP_STRING] strstr_sublist [of b SERVER_SET_OP_STRING]
    strstr_sublist [of b SERVER_DEL_OP_STRING]
  by (simp add: detect_op_def)

text \<open>The three ways one round of the argument loop can go.\<close>

lemma loop_done: "strtok_r temp = None \<Longrightarrow> server_op_check_loop temp st = (None, st)"
  by (subst server_op_check_loop.simps) simp

lemma loop_too_many:
  "strtok_r temp = Some (token, temp') \<Longrightarrow> op_args st > SERVER_MAX_ARGS \<Longrightarrow>
   server_op_check_loop temp st = (Some SERVER_E_TOO_MANY, st)"
  by (subst server_op_check_loop.simps) simp

lemma loop_step:
  "strtok_r temp = Some (token, temp') \<Longrightarrow> \<not> op_args st > SERVER_MAX_ARGS \<Longrightarrow>
   server_op_check_loop temp st =
   server_op_check_loop temp' ((store_arg st token)\<lparr>op_args := op_args st + 1\<rparr>)"
  by (subst server_op_check_loop.simps) simp

lemma loop_early:
  "fst (server_op_check_loop temp st) = None \<or>
   fst (server_op_check_loop temp st) = Some SERVER_E_TOO_MANY"
proof (induction temp st rule: server_op_check_loop.induct)
  case (1 temp st)
  show ?case
  proof (cases "strtok_r temp")
    case None
    then show ?thesis by (simp add: loop_done)
  next
    case (Some p)
    obtain token temp' where p: "p = (token, temp')" by (cases p)
    show ?thesis
    proof (cases "op_args st > SERVER_MAX_ARGS")
      case True
      with Some p show ?thesis by (simp add: loop_too_many)
    next
      case False
      with Some p have "server_op_check_loop temp st =
         server_op_check_loop temp' ((store_arg st token)\<lparr>op_args := op_args st + 1\<rparr>)"
        by (simp add: loop_step)
      moreover have
        "fst (server_op_check_loop temp' ((store_arg st token)\<lparr>op_args := op_args st + 1\<rparr>)) = None \<or>
         fst (server_op_check_loop temp' ((store_arg st token)\<lparr>op_args := op_args st + 1\<rparr>))
           = Some SERVER_E_TOO_MANY"
        using Some p False by (intro "1.IH" [of p token temp']) simp_all
      ultimately show ?thesis by (simp only:)
    qed
  qed
qed

text \<open>The parser once the size and null checks have let the call through.\<close>

lemma check_valid:
  assumes "\<not> size_t_of_int len < sizeof_literal SERVER_GET_OP_STRING"
  shows "server_op_check (Some b) len (Some d0) =
     (let kind = detect_op b;
          lp = server_op_check_loop
                 (case strtok_r b of None \<Rightarrow> [] | Some (token, temp') \<Rightarrow> temp')
                 \<lparr>op_args = 0, slots = (None, None), stray = []\<rparr>;
          d = \<lparr>op = kind, args = slots (snd lp)\<rparr>
      in if kind = SERVER_OP_NONE
         then \<lparr>ret = SERVER_E_INVALID, digest = Some zero_digest, overrun = []\<rparr>
         else \<lparr>ret = (case fst lp of
                        Some e \<Rightarrow> e
                      | None \<Rightarrow>
                          if kind = SERVER_OP_SET \<and> op_args (snd lp) \<noteq> 2 then SERVER_E_MISSING
                          else if (kind = SERVER_OP_GET \<or> kind = SERVER_OP_DEL)
                                  \<and> op_args (snd lp) \<noteq> 1
                          then SERVER_E_MISSING
                          else SERVER_OK),
               digest = Some d, overrun = stray (snd lp)\<rparr>)"
proof -
  have len0: "len \<noteq> 0" using assms size_check_iff [of len] by auto
  show ?thesis
    using assms len0
    by (simp add: server_op_check_def Let_def case_prod_beta zero_digest_def SERVER_MAX_ARGS_def
             split: option.split)
qed

text \<open>
  The size check alone decides whether the parser returns \<open>SERVER_E_SIZE\<close>: it does for
  the lengths 0 to 3 and for no other.
\<close>

lemma check_size_iff:
  "ret (server_op_check buffer len dg) = SERVER_E_SIZE \<longleftrightarrow> 0 \<le> sint len \<and> sint len < 4"
proof (cases "size_t_of_int len < sizeof_literal SERVER_GET_OP_STRING")
  case True
  then show ?thesis using size_check_iff [of len] by (simp add: server_op_check_def)
next
  case False
  have "ret (server_op_check buffer len dg) \<noteq> SERVER_E_SIZE"
  proof (cases buffer)
    case None
    with False show ?thesis by (simp add: server_op_check_def)
  next
    case (Some b)
    show ?thesis
    proof (cases dg)
      case None
      with False Some show ?thesis by (simp add: server_op_check_def)
    next
      case (Some d0)
      show ?thesis
        using loop_early [of "case strtok_r b of None \<Rightarrow> [] | Some (token, temp') \<Rightarrow> temp'"
                 "\<lparr>op_args = 0, slots = (None, None), stray = []\<rparr>"]
        unfolding \<open>buffer = Some b\<close> Some check_valid [OF False]
        by (auto simp: Let_def)
    qed
  qed
  with False show ?thesis using size_check_iff [of len] by simp
qed

subsection \<open>Size and null validation\<close>

text \<open>
  C4. The claim: the parser rejects a buffer with \<open>SERVER_E_SIZE\<close> exactly when its length
  is less than 3, the length of the shortest keyword, and every buffer of length at least 3
  passes the size check. The code compares the length with \<open>sizeof("GET")\<close>, which is 4:
  the three-byte buffer \<open>GET\<close> is rejected with \<open>SERVER_E_SIZE\<close>.
\<close>

theorem C4_length_three_rejected:
  "ret (server_op_check (Some ''GET'') 3 (Some zero_digest)) = SERVER_E_SIZE"
  by (simp add: check_size_iff)

text \<open>A null buffer whose length passes the size check is rejected with \<open>SERVER_E_NULL\<close>.\<close>

lemma null_buffer_rejected:
  "4 \<le> sint len \<Longrightarrow> ret (server_op_check None len dg) = SERVER_E_NULL"
  using size_check_iff [of len] by (simp add: server_op_check_def)

text \<open>
  The test \<open>length == 0\<close> of the null check is never reached with a zero length: the size
  check before it has already returned.
\<close>

lemma zero_length_rejected_by_size_check:
  "ret (server_op_check buffer 0 dg) = SERVER_E_SIZE"
  by (simp add: check_size_iff)


subsection \<open>Keyword detection\<close>

text \<open>
  C8, as the claim states it: for every request buffer the kind is found by the substring
  search, and a buffer without any of the three keywords gets \<open>SERVER_E_INVALID\<close>. The
  size check comes before the search: the two-byte request \<open>hi\<close> holds no keyword and is
  rejected with \<open>SERVER_E_SIZE\<close>.
\<close>

theorem C8_short_buffer_counterexample:
  "\<not> sublist SERVER_GET_OP_STRING (c_string ''hi'') \<and>
   \<not> sublist SERVER_SET_OP_STRING (c_string ''hi'') \<and>
   \<not> sublist SERVER_DEL_OP_STRING (c_string ''hi'') \<and>
   ret (server_op_check (Some (c_string ''hi'')) 2 (Some zero_digest)) = SERVER_E_SIZE \<and>
   ret (server_op_check (Some (c_string ''hi'')) 2 (Some zero_digest)) \<noteq> SERVER_E_INVALID"
proof -
  have cs: "c_string ''hi'' = ''hi''" by (simp add: c_string_def NUL_def)
  have g: "\<not> sublist SERVER_GET_OP_STRING ''hi''"
    unfolding SERVER_GET_OP_STRING_def by code_simp
  have s: "\<not> sublist SERVER_SET_OP_STRING ''hi''"
    unfolding SERVER_SET_OP_STRING_def by code_simp
  have d: "\<not> sublist SERVER_DEL_OP_STRING ''hi''"
    unfolding SERVER_DEL_OP_STRING_def by code_simp
  have r: "ret (server_op_check (Some ''hi'') 2 (Some zero_digest)) = SERVER_E_SIZE"
    by (simp add: check_size_iff)
  show ?thesis unfolding cs using g s d r by simp
qed

text \<open>
  C8, amended: for every request buffer of at least 4 bytes, with \<open>raw\<close> the bytes at the
  buffer and the C string the part of them before the first NUL, the operation kind is
  found by searching the whole string for GET, then SET, then DEL: a string that contains
  GET anywhere is a GET; one without GET that contains SET is a SET; one with neither that
  contains DEL is a DEL; and the parser returns \<open>SERVER_E_INVALID\<close> exactly when none of
  the three occurs. The kind is the one left in the digest, whatever the argument check
  says afterwards.
\<close>

theorem C8_keyword_by_substring_precedence:
  assumes "4 \<le> sint len"
  shows "(sublist SERVER_GET_OP_STRING (c_string raw) \<longrightarrow>
            map_option op (digest (server_op_check (Some (c_string raw)) len (Some d0)))
              = Some SERVER_OP_GET) \<and>
         (\<not> sublist SERVER_GET_OP_STRING (c_string raw) \<and>
          sublist SERVER_SET_OP_STRING (c_string raw) \<longrightarrow>
            map_option op (digest (server_op_check (Some (c_string raw)) len (Some d0)))
              = Some SERVER_OP_SET) \<and>
         (\<not> sublist SERVER_GET_OP_STRING (c_string raw) \<and>
          \<not> sublist SERVER_SET_OP_STRING (c_string raw) \<and>
          sublist SERVER_DEL_OP_STRING (c_string raw) \<longrightarrow>
            map_option op (digest (server_op_check (Some (c_string raw)) len (Some d0)))
              = Some SERVER_OP_DEL) \<and>
         (ret (server_op_check (Some (c_string raw)) len (Some d0)) = SERVER_E_INVALID \<longleftrightarrow>
            \<not> sublist SERVER_GET_OP_STRING (c_string raw) \<and>
            \<not> sublist SERVER_SET_OP_STRING (c_string raw) \<and>
            \<not> sublist SERVER_DEL_OP_STRING (c_string raw))"
proof -
  from assms have valid: "\<not> size_t_of_int len < sizeof_literal SERVER_GET_OP_STRING"
    by (simp add: size_check_iff)
  let ?b = "c_string raw"
  have kind: "map_option op (digest (server_op_check (Some ?b) len (Some d0)))
                = Some (detect_op ?b)"
    unfolding check_valid [OF valid] by (simp add: Let_def zero_digest_def)
  have invalid: "ret (server_op_check (Some ?b) len (Some d0)) = SERVER_E_INVALID
                   \<longleftrightarrow> detect_op ?b = SERVER_OP_NONE"
    using loop_early [of "case strtok_r ?b of None \<Rightarrow> [] | Some (token, temp') \<Rightarrow> temp'"
             "\<lparr>op_args = 0, slots = (None, None), stray = []\<rparr>"]
    unfolding check_valid [OF valid]
    by (auto simp: Let_def)
  show ?thesis
    unfolding kind invalid by (simp add: detect_op_cases)
qed

theorem C8_keyword_by_substring_precedence_witness:
  "4 \<le> sint (11 :: 32 word) \<and>
   map_option op (digest (server_op_check (Some (c_string (''DELSET k v'' @ [CHR 0x0A]))) 11
                            (Some zero_digest))) = Some SERVER_OP_SET \<and>
   ret (server_op_check (Some (c_string (''DELSET k v'' @ [CHR 0x0A]))) 11 (Some zero_digest))
     = SERVER_OK"
proof -
  have h: "4 \<le> sint (11 :: 32 word)" by simp
  have cs: "c_string (''DELSET k v'' @ [CHR 0x0A]) = ''DELSET k v'' @ [CHR 0x0A]"
    by (simp add: c_string_def NUL_def)
  have g: "\<not> sublist SERVER_GET_OP_STRING (c_string (''DELSET k v'' @ [CHR 0x0A]))"
    unfolding cs SERVER_GET_OP_STRING_def by code_simp
  have s: "sublist SERVER_SET_OP_STRING (c_string (''DELSET k v'' @ [CHR 0x0A]))"
    unfolding cs SERVER_SET_OP_STRING_def by code_simp
  have ok: "ret (server_op_check (Some (c_string (''DELSET k v'' @ [CHR 0x0A]))) 11
                   (Some zero_digest)) = SERVER_OK"
    unfolding cs by code_simp
  from C8_keyword_by_substring_precedence [OF h, of "''DELSET k v'' @ [CHR 0x0A]" zero_digest] g s
  have "map_option op (digest (server_op_check (Some (c_string (''DELSET k v'' @ [CHR 0x0A]))) 11
                                 (Some zero_digest))) = Some SERVER_OP_SET"
    by blast
  with h ok show ?thesis by simp
qed

subsection \<open>The bound on the arguments\<close>

text \<open>
  C3. The claim: a keyword followed by three or more argument tokens is rejected with
  \<open>SERVER_E_TOO_MANY\<close> before a third argument is stored, so that nothing is written
  beyond the two slots of \<open>args\<close>. The loop tests \<open>op_args > SERVER_MAX_ARGS\<close> before it
  stores: with three arguments the third is stored at index 2, outside the array, the loop
  ends, and the parser returns \<open>SERVER_E_MISSING\<close>.
\<close>

theorem C3_third_argument_stored:
  "ret (server_op_check (Some (''GET a b c'' @ [CHR 0x0A])) 10 (Some zero_digest))
     = SERVER_E_MISSING \<and>
   overrun (server_op_check (Some (''GET a b c'' @ [CHR 0x0A])) 10 (Some zero_digest))
     = [(2, ''c'')]"
  by code_simp

text \<open>
  With four arguments the parser does return \<open>SERVER_E_TOO_MANY\<close>, at the fourth, after the
  same store of the third outside the array.
\<close>

lemma four_arguments_too_many:
  "ret (server_op_check (Some (''GET a b c d'' @ [CHR 0x0A])) 12 (Some zero_digest))
     = SERVER_E_TOO_MANY \<and>
   overrun (server_op_check (Some (''GET a b c d'' @ [CHR 0x0A])) 12 (Some zero_digest))
     = [(2, ''c'')]"
  by code_simp

text \<open>
  In general: whenever the parser returns \<open>SERVER_E_TOO_MANY\<close>, a store outside the array
  has already been made.
\<close>

lemma loop_too_many_stray:
  "(2 < op_args st \<longrightarrow> stray st \<noteq> []) \<Longrightarrow>
   fst (server_op_check_loop temp st) = Some SERVER_E_TOO_MANY \<Longrightarrow>
   stray (snd (server_op_check_loop temp st)) \<noteq> []"
proof (induction temp st rule: server_op_check_loop.induct)
  case (1 temp st)
  show ?case
  proof (cases "strtok_r temp")
    case None
    with "1.prems" show ?thesis by (simp add: loop_done)
  next
    case (Some p)
    obtain token temp' where p: "p = (token, temp')" by (cases p)
    with Some have tok: "strtok_r temp = Some (token, temp')" by simp
    show ?thesis
    proof (cases "op_args st > SERVER_MAX_ARGS")
      case True
      with tok "1.prems" show ?thesis by (simp add: loop_too_many SERVER_MAX_ARGS_def)
    next
      case False
      let ?st = "(store_arg st token)\<lparr>op_args := op_args st + 1\<rparr>"
      have inv: "2 < op_args ?st \<longrightarrow> stray ?st \<noteq> []"
        using False by (auto simp: store_arg_def SERVER_MAX_ARGS_def)
      have early: "fst (server_op_check_loop temp' ?st) = Some SERVER_E_TOO_MANY"
        using "1.prems"(2) by (simp only: loop_step [OF tok False])
      have "stray (snd (server_op_check_loop temp' ?st)) \<noteq> []"
        using Some p False inv early by (intro "1.IH" [of p token temp']) simp_all
      then show ?thesis by (simp add: loop_step [OF tok False])
    qed
  qed
qed

lemma too_many_after_stray_store:
  assumes "ret (server_op_check buffer len dg) = SERVER_E_TOO_MANY"
  shows "overrun (server_op_check buffer len dg) \<noteq> []"
proof -
  from assms have valid: "\<not> size_t_of_int len < sizeof_literal SERVER_GET_OP_STRING"
    and "\<exists>b. buffer = Some b" and "\<exists>d0. dg = Some d0"
    by (auto simp: server_op_check_def split: if_splits)
  then obtain b d0 where b: "buffer = Some b" and d0: "dg = Some d0" by blast
  let ?lp = "server_op_check_loop
      (case strtok_r b of None \<Rightarrow> [] | Some (token, temp') \<Rightarrow> temp')
      \<lparr>op_args = 0, slots = (None, None), stray = []\<rparr>"
  from assms have early: "fst ?lp = Some SERVER_E_TOO_MANY"
    unfolding b d0 check_valid [OF valid]
    by (auto simp: Let_def split: if_splits option.splits)
  have "stray (snd ?lp) \<noteq> []"
    by (rule loop_too_many_stray [OF _ early]) simp
  with early assms show ?thesis
    unfolding b d0 check_valid [OF valid]
    by (auto simp: Let_def split: if_splits)
qed

subsection \<open>What a validated command looks like\<close>

lemma strtok_r_token:
  assumes "strtok_r s = Some (t, r)"
  shows "t \<noteq> [] \<and> \<not> list_ex is_delim t"
proof -
  let ?s1 = "dropWhile is_delim s"
  from assms have ne: "?s1 \<noteq> []" and t: "t = takeWhile (\<lambda>c. \<not> is_delim c) ?s1"
    by (auto simp: strtok_r_def Let_def split: if_splits)
  from ne have "\<not> is_delim (hd ?s1)" by (rule hd_dropWhile)
  with ne have "t \<noteq> []" unfolding t by (cases ?s1) auto
  moreover have "\<forall>c \<in> set t. \<not> is_delim c" unfolding t by (auto dest: set_takeWhileD)
  ultimately show ?thesis by (simp add: list_ex_iff)
qed

lemma store_arg_filled:
  assumes "args_filled st" and "t \<noteq> [] \<and> \<not> list_ex is_delim t"
  shows "args_filled ((store_arg st t)\<lparr>op_args := op_args st + 1\<rparr>)"
  using assms by (auto simp: args_filled_def store_arg_def token_ok_def)

lemma loop_filled:
  "args_filled st \<Longrightarrow> args_filled (snd (server_op_check_loop temp st))"
proof (induction temp st rule: server_op_check_loop.induct)
  case (1 temp st)
  show ?case
  proof (cases "strtok_r temp")
    case None
    with "1.prems" show ?thesis by (simp add: loop_done)
  next
    case (Some p)
    obtain token temp' where p: "p = (token, temp')" by (cases p)
    with Some have tok: "strtok_r temp = Some (token, temp')" by simp
    show ?thesis
    proof (cases "op_args st > SERVER_MAX_ARGS")
      case True
      with tok "1.prems" show ?thesis by (simp add: loop_too_many)
    next
      case False
      have "args_filled ((store_arg st token)\<lparr>op_args := op_args st + 1\<rparr>)"
        using "1.prems" strtok_r_token [OF tok] by (rule store_arg_filled)
      then have "args_filled (snd (server_op_check_loop temp'
                    ((store_arg st token)\<lparr>op_args := op_args st + 1\<rparr>)))"
        using Some p False by (intro "1.IH" [of p token temp']) simp_all
      then show ?thesis by (simp only: loop_step [OF tok False])
    qed
  qed
qed

lemma check_ok_valid:
  assumes "ret (server_op_check buffer len dg) = SERVER_OK"
  shows "\<not> size_t_of_int len < sizeof_literal SERVER_GET_OP_STRING \<and>
         (\<exists>b. buffer = Some b) \<and> (\<exists>d0. dg = Some d0)"
  using assms by (auto simp: server_op_check_def split: if_splits)

lemma backend_not_null:
  assumes "op d = SERVER_OP_SET \<or> op d = SERVER_OP_GET \<or> op d = SERVER_OP_DEL"
    and "if op d = SERVER_OP_SET then snd (args d) \<noteq> None else True"
  shows "\<exists>err buf' files'. server_op_backend env files d buf = Some (err, buf', files')
            \<and> err \<noteq> SERVER_E_NULL"
  using assms
  by (auto simp: server_op_backend_def server_write_key_value_def server_read_key_value_def
        server_delete_key_value_def Let_def case_prod_beta split: option.splits if_splits)

text \<open>
  C10. Whenever \<open>server_op_check\<close> returns \<open>SERVER_OK\<close>, the digest pointer is not null
  and the command it holds has a kind that is SET, GET or DEL, never NONE; its first
  argument is a non-null, non-empty token, and for a SET so is the second; nothing was
  stored outside the array. So for a validated command the final \<open>else\<close> of the chain in
  \<open>server_op_process\<close> is not taken, and the backend operation that runs gets a non-null
  digest with the arguments it dereferences: it returns, and never \<open>SERVER_E_NULL\<close>.
\<close>

theorem C10_validated_command:
  assumes "ret (server_op_check buffer len dg) = SERVER_OK"
  shows "\<exists>d k. digest (server_op_check buffer len dg) = Some d \<and>
               overrun (server_op_check buffer len dg) = [] \<and>
               (op d = SERVER_OP_SET \<or> op d = SERVER_OP_GET \<or> op d = SERVER_OP_DEL) \<and>
               fst (args d) = Some k \<and> k \<noteq> [] \<and>
               (op d = SERVER_OP_SET \<longrightarrow> (\<exists>v. snd (args d) = Some v \<and> v \<noteq> [])) \<and>
               (\<forall>env files buf. \<exists>err buf' files'.
                   server_op_backend env files d buf = Some (err, buf', files')
                   \<and> err \<noteq> SERVER_E_NULL)"
proof -
  from check_ok_valid [OF assms] obtain b d0
    where valid: "\<not> size_t_of_int len < sizeof_literal SERVER_GET_OP_STRING"
      and b: "buffer = Some b" and d0: "dg = Some d0" by blast
  define lp where "lp = server_op_check_loop
      (case strtok_r b of None \<Rightarrow> [] | Some (token, temp') \<Rightarrow> temp')
      \<lparr>op_args = 0, slots = (None, None), stray = []\<rparr>"
  define d where "d = \<lparr>op = detect_op b, args = slots (snd lp)\<rparr>"
  have filled: "args_filled (snd lp)"
    unfolding lp_def by (rule loop_filled) (simp add: args_filled_def token_ok_def)
  note cv = check_valid [OF valid, of b d0, unfolded Let_def, folded lp_def, folded d_def]
  from assms have kind: "detect_op b \<noteq> SERVER_OP_NONE"
    unfolding b d0 cv by (auto split: if_splits)
  then have res: "server_op_check buffer len dg =
      \<lparr>ret = (case fst lp of Some e \<Rightarrow> e
              | None \<Rightarrow> if detect_op b = SERVER_OP_SET \<and> op_args (snd lp) \<noteq> 2 then SERVER_E_MISSING
                  else if (detect_op b = SERVER_OP_GET \<or> detect_op b = SERVER_OP_DEL) \<and> op_args (snd lp) \<noteq> 1
                  then SERVER_E_MISSING else SERVER_OK),
        digest = Some d, overrun = stray (snd lp)\<rparr>"
    unfolding b d0 cv by simp
  from assms have cnt: "(detect_op b = SERVER_OP_SET \<and> op_args (snd lp) = 2) \<or>
               ((detect_op b = SERVER_OP_GET \<or> detect_op b = SERVER_OP_DEL) \<and> op_args (snd lp) = 1)"
    using kind loop_early [of "case strtok_r b of None \<Rightarrow> [] | Some (token, temp') \<Rightarrow> temp'"
             "\<lparr>op_args = 0, slots = (None, None), stray = []\<rparr>", folded lp_def]
    unfolding res by (cases "detect_op b") (auto split: option.splits if_splits)
  have opd: "op d = SERVER_OP_SET \<or> op d = SERVER_OP_GET \<or> op d = SERVER_OP_DEL"
    using cnt by (auto simp: d_def)
  from cnt filled obtain k where k: "fst (args d) = Some k" "k \<noteq> []"
    by (auto simp: d_def args_filled_def token_ok_def split: option.splits if_splits)
  have v: "op d = SERVER_OP_SET \<longrightarrow> (\<exists>v. snd (args d) = Some v \<and> v \<noteq> [])"
    using cnt filled
    by (auto simp: d_def args_filled_def token_ok_def split: option.splits if_splits)
  have str: "overrun (server_op_check buffer len dg) = []"
    using cnt filled unfolding res by (auto simp: args_filled_def split: if_splits)
  have be: "\<forall>env files buf. \<exists>err buf' files'.
               server_op_backend env files d buf = Some (err, buf', files') \<and> err \<noteq> SERVER_E_NULL"
    using backend_not_null [of d] opd v by auto
  show ?thesis
    using res opd k v str be by (intro exI [of _ d] exI [of _ k]) simp
qed



theorem C10_validated_command_witness:
  "ret (server_op_check (Some (''SET k v'' @ [CHR 0x0A])) 8 (Some zero_digest)) = SERVER_OK \<and>
   (\<exists>d k. digest (server_op_check (Some (''SET k v'' @ [CHR 0x0A])) 8 (Some zero_digest)) = Some d \<and>
      overrun (server_op_check (Some (''SET k v'' @ [CHR 0x0A])) 8 (Some zero_digest)) = [] \<and>
      (op d = SERVER_OP_SET \<or> op d = SERVER_OP_GET \<or> op d = SERVER_OP_DEL) \<and>
      fst (args d) = Some k \<and> k \<noteq> [] \<and>
      (op d = SERVER_OP_SET \<longrightarrow> (\<exists>v. snd (args d) = Some v \<and> v \<noteq> [])) \<and>
      (\<forall>env files buf. \<exists>err buf' files'.
          server_op_backend env files d buf = Some (err, buf', files')
          \<and> err \<noteq> SERVER_E_NULL))"
proof -
  have h: "ret (server_op_check (Some (''SET k v'' @ [CHR 0x0A])) 8 (Some zero_digest)) = SERVER_OK"
    by code_simp
  from h C10_validated_command [OF h] show ?thesis by (rule conjI)
qed

section \<open>Properties of the backend\<close>

subsection \<open>SET\<close>

text \<open>What \<open>server_write_key_value\<close> returns for a key and a value, neither null.\<close>

lemma write_key_value_ret:
  assumes "args d = (Some k, Some v)"
  shows "map_option fst (server_write_key_value env files (Some d)) =
         Some (if open_ret env < 0 \<or> write_count env (length v) = 0
               then SERVER_E_OS else SERVER_OK)"
  using assms
  by (simp add: server_write_key_value_def sys_open_creat_trunc_def sys_write_def Let_def)

text \<open>
  C7. The claim: SET returns \<open>SERVER_E_OS\<close> if and only if opening the file fails or
  writing the value fails at the OS level, and \<open>SERVER_OK\<close> otherwise. The code tests the
  return value of \<open>write\<close> with \<open>cnt == 0\<close>; a failed \<open>write\<close> returns -1, and SET
  then returns \<open>SERVER_OK\<close>.
\<close>

theorem C7_failed_write_returns_ok:
  "map_option fst
     (server_write_key_value write_fails no_files
        (Some \<lparr>op = SERVER_OP_SET, args = (Some ''k'', Some ''v'')\<rparr>)) = Some SERVER_OK"
  by (simp add: write_key_value_ret [of _ "''k''" "''v''"] write_fails_def no_fault_def
        write_count_def)

subsection \<open>GET\<close>

text \<open>
  C9. For every key \<open>k\<close>, GET returns \<open>SERVER_E_NOT_FOUND\<close>, with the caller's buffer
  untouched, when the file is absent or cannot be opened, and also when the file opens and
  \<open>read\<close> returns zero bytes; in every other case it returns \<open>SERVER_OK\<close> and the bytes
  \<open>read\<close> delivered are at the start of the caller's buffer (none of them when \<open>read\<close>
  returned an error). A file that exists and is empty gives the same result as one that
  does not exist, as long as \<open>read\<close> itself does not fail.
\<close>

theorem C9_read_not_found:
  assumes "fst (args d) = Some k"
  shows "(files k = None \<or> open_ret env < 0 \<longrightarrow>
            server_read_key_value env files (Some d) buffer n = (SERVER_E_NOT_FOUND, buffer)) \<and>
         (files k = Some content \<and> 0 \<le> open_ret env \<and> read_count env content n = 0 \<longrightarrow>
            server_read_key_value env files (Some d) buffer n = (SERVER_E_NOT_FOUND, buffer)) \<and>
         (files k = Some content \<and> 0 \<le> open_ret env \<and> read_count env content n \<noteq> 0 \<longrightarrow>
            server_read_key_value env files (Some d) buffer n =
              (SERVER_OK, take (nat (read_count env content n)) (take n content)
                          @ drop (nat (read_count env content n)) buffer)) \<and>
         (0 \<le> read_ret env 0 \<longrightarrow>
            server_read_key_value env (files(k \<mapsto> [])) (Some d) buffer n =
              server_read_key_value env (files(k := None)) (Some d) buffer n)"
proof (intro conjI impI)
  assume "files k = None \<or> open_ret env < 0"
  then show "server_read_key_value env files (Some d) buffer n = (SERVER_E_NOT_FOUND, buffer)"
    using assms
    by (auto simp: server_read_key_value_def sys_open_rdonly_def Let_def split: option.splits)
next
  assume "files k = Some content \<and> 0 \<le> open_ret env \<and> read_count env content n = 0"
  then show "server_read_key_value env files (Some d) buffer n = (SERVER_E_NOT_FOUND, buffer)"
    using assms
    by (simp add: server_read_key_value_def sys_open_rdonly_def sys_read_def Let_def)
next
  assume "files k = Some content \<and> 0 \<le> open_ret env \<and> read_count env content n \<noteq> 0"
  then show "server_read_key_value env files (Some d) buffer n =
              (SERVER_OK, take (nat (read_count env content n)) (take n content)
                          @ drop (nat (read_count env content n)) buffer)"
    using assms
    by (simp add: server_read_key_value_def sys_open_rdonly_def sys_read_def Let_def)
next
  assume "0 \<le> read_ret env 0"
  then show "server_read_key_value env (files(k \<mapsto> [])) (Some d) buffer n =
           server_read_key_value env (files(k := None)) (Some d) buffer n"
    using assms
    by (simp add: server_read_key_value_def sys_open_rdonly_def sys_read_def Let_def read_count_def)
qed

theorem C9_read_not_found_witness:
  "server_read_key_value no_fault (no_files(''k'' \<mapsto> ''42''))
     (Some \<lparr>op = SERVER_OP_GET, args = (Some ''k'', None)\<rparr>) (replicate 4 NUL) 4
   = (SERVER_OK, ''42'' @ [NUL, NUL]) \<and>
   server_read_key_value no_fault (no_files(''k'' \<mapsto> []))
     (Some \<lparr>op = SERVER_OP_GET, args = (Some ''k'', None)\<rparr>) (replicate 4 NUL) 4
   = (SERVER_E_NOT_FOUND, replicate 4 NUL)"
proof -
  have rc: "read_count no_fault ''42'' 4 = 2" "read_count no_fault [] 4 = 0"
    by (simp_all add: read_count_def no_fault_def)
  have r4: "replicate 4 NUL = [NUL, NUL, NUL, NUL]" by (simp add: numeral_eq_Suc)
  have o: "0 \<le> open_ret no_fault" "0 \<le> read_ret no_fault 0" by (simp_all add: no_fault_def)
  show ?thesis
    using C9_read_not_found [of "\<lparr>op = SERVER_OP_GET, args = (Some ''k'', None)\<rparr>" "''k''"
            "no_files(''k'' \<mapsto> ''42'')" no_fault "replicate 4 NUL" 4 "''42''"]
          C9_read_not_found [of "\<lparr>op = SERVER_OP_GET, args = (Some ''k'', None)\<rparr>" "''k''"
            "no_files(''k'' \<mapsto> [])" no_fault "replicate 4 NUL" 4 "[]"]
    by (simp add: rc r4 o)
qed

subsection \<open>SET, then GET\<close>

text \<open>
  The arguments of a command the parser accepted are tokens: not empty and free of
  delimiters.
\<close>

lemma validated_tokens:
  assumes "ret (server_op_check buffer len dg) = SERVER_OK"
    and "digest (server_op_check buffer len dg) = Some d"
  shows "token_ok (fst (args d)) \<and> token_ok (snd (args d))"
proof -
  from check_ok_valid [OF assms(1)] obtain b d0
    where valid: "\<not> size_t_of_int len < sizeof_literal SERVER_GET_OP_STRING"
      and b: "buffer = Some b" and d0: "dg = Some d0" by blast
  define lp where "lp = server_op_check_loop
      (case strtok_r b of None \<Rightarrow> [] | Some (token, temp') \<Rightarrow> temp')
      \<lparr>op_args = 0, slots = (None, None), stray = []\<rparr>"
  have filled: "args_filled (snd lp)"
    unfolding lp_def by (rule loop_filled) (simp add: args_filled_def token_ok_def)
  note cv = check_valid [OF valid, of b d0, unfolded Let_def, folded lp_def]
  from assms(1) have kind: "detect_op b \<noteq> SERVER_OP_NONE"
    unfolding b d0 cv by (auto split: if_splits)
  with assms(2) have "args d = slots (snd lp)"
    unfolding b d0 cv by auto
  with filled show ?thesis by (simp add: args_filled_def)
qed

text \<open>
  C1, as the claim states it: for every key and value without whitespace, SET and then GET
  succeed and GET yields the value. The claim says nothing of the system calls. With the
  key \<open>x\<close> and the value \<open>42\<close>: when \<open>open\<close> fails, SET returns \<open>SERVER_E_OS\<close> and GET
  \<open>SERVER_E_NOT_FOUND\<close>; when \<open>write\<close> fails, GET finds an empty file and returns
  \<open>SERVER_E_NOT_FOUND\<close>; when \<open>read\<close> fails, GET returns \<open>SERVER_OK\<close> and the buffer
  holds nothing of the value.
\<close>

theorem C1_os_failure_counterexample:
  "set_then_get open_fails no_files ''x'' ''42'' (replicate 128 NUL)
     = Some (SERVER_E_OS, SERVER_E_NOT_FOUND, replicate 128 NUL) \<and>
   set_then_get write_fails no_files ''x'' ''42'' (replicate 128 NUL)
     = Some (SERVER_OK, SERVER_E_NOT_FOUND, replicate 128 NUL) \<and>
   set_then_get read_fails no_files ''x'' ''42'' (replicate 128 NUL)
     = Some (SERVER_OK, SERVER_OK, replicate 128 NUL)"
  by (simp add: set_then_get_def server_write_key_value_def server_read_key_value_def
        sys_open_creat_trunc_def sys_write_def sys_open_rdonly_def sys_read_def
        write_count_def read_count_def open_fails_def write_fails_def read_fails_def
        no_fault_def no_files_def Let_def)

text \<open>
  C1, amended: for every key \<open>k\<close> and value \<open>v\<close> that are the arguments of a SET command
  the parser accepted (tokens of the request's C string, so without whitespace or
  newline), with \<open>v\<close> no longer than the response buffer, if \<open>open\<close> succeeds and
  \<open>write\<close> and \<open>read\<close> transfer all of the value, then SET with \<open>(k, v)\<close> returns
  \<open>SERVER_OK\<close>, and GET with \<open>k\<close> after it returns \<open>SERVER_OK\<close> with exactly the bytes
  of \<open>v\<close> at the start of the buffer, the rest of the buffer unchanged.
\<close>

theorem C1_set_then_get:
  assumes "ret (server_op_check (Some (c_string raw)) len dg) = SERVER_OK"
    and "digest (server_op_check (Some (c_string raw)) len dg) = Some d"
    and "op d = SERVER_OP_SET" and "args d = (Some k, Some v)"
    and "length v \<le> length buffer"
    and "0 \<le> open_ret env"
    and "write_ret env (length v) = int (length v)"
    and "read_ret env (length v) = int (length v)"
  shows "set_then_get env files k v buffer =
           Some (SERVER_OK, SERVER_OK, v @ drop (length v) buffer)"
proof -
  from validated_tokens [OF assms(1,2)] assms(4) have "v \<noteq> []"
    by (simp add: token_ok_def)
  then have pos: "0 < length v" by simp
  have w: "write_count env (length v) = int (length v)"
    using assms(7) by (simp add: write_count_def)
  have r: "read_count env v (length buffer) = int (length v)"
    using assms(5,8) by (simp add: read_count_def)
  have wr: "server_write_key_value env files
              (Some \<lparr>op = SERVER_OP_SET, args = (Some k, Some v)\<rparr>)
            = Some (SERVER_OK, files(k \<mapsto> v))"
    using assms(6) w pos
    by (simp add: server_write_key_value_def sys_open_creat_trunc_def sys_write_def Let_def)
  have rd: "server_read_key_value env (files(k \<mapsto> v))
              (Some \<lparr>op = SERVER_OP_GET, args = (Some k, None)\<rparr>) buffer (length buffer)
            = (SERVER_OK, v @ drop (length v) buffer)"
    using assms(5,6) r pos
    by (simp add: server_read_key_value_def sys_open_rdonly_def sys_read_def Let_def)
  show ?thesis by (simp add: set_then_get_def wr rd)
qed

theorem C1_set_then_get_witness:
  "ret (server_op_check (Some (c_string (''SET x 42'' @ [CHR 0x0A]))) 9 (Some zero_digest))
     = SERVER_OK \<and>
   digest (server_op_check (Some (c_string (''SET x 42'' @ [CHR 0x0A]))) 9 (Some zero_digest))
     = Some \<lparr>op = SERVER_OP_SET, args = (Some ''x'', Some ''42'')\<rparr> \<and>
   set_then_get no_fault no_files ''x'' ''42'' (replicate 128 NUL)
     = Some (SERVER_OK, SERVER_OK, ''42'' @ replicate 126 NUL)"
proof -
  have cs: "c_string (''SET x 42'' @ [CHR 0x0A]) = ''SET x 42'' @ [CHR 0x0A]"
    by (simp add: c_string_def NUL_def)
  have h1: "ret (server_op_check (Some (c_string (''SET x 42'' @ [CHR 0x0A]))) 9
                   (Some zero_digest)) = SERVER_OK"
    unfolding cs by code_simp
  have h2: "digest (server_op_check (Some (c_string (''SET x 42'' @ [CHR 0x0A]))) 9
                      (Some zero_digest))
              = Some \<lparr>op = SERVER_OP_SET, args = (Some ''x'', Some ''42'')\<rparr>"
    unfolding cs by code_simp
  have "set_then_get no_fault no_files ''x'' ''42'' (replicate 128 NUL)
          = Some (SERVER_OK, SERVER_OK, ''42'' @ drop (length ''42'') (replicate 128 NUL))"
    by (rule C1_set_then_get [OF h1 h2]) (simp_all add: no_fault_def)
  with h1 h2 show ?thesis by simp
qed

section \<open>Properties of the responses\<close>

text \<open>
  The first \<open>send\<close> after a SET or DEL that the backend completed: the bytes handed to it
  are \<open>sizeof(SERVER_OK_RESPONSE)\<close> bytes, the three characters and the terminator.
\<close>

lemma process_ok_response:
  assumes "op d = SERVER_OP_SET \<or> op d = SERVER_OP_DEL"
    and "server_op_backend env files d (replicate 128 NUL) = Some (SERVER_OK, buf, files1)"
    and "4 \<le> send_ret env 0 (literal_bytes SERVER_OK_RESPONSE)"
  shows "map_option sent (server_op_process env files (Some d)) = Some [''OK'' @ [CHR 0x0A, NUL]]"
proof -
  have lb: "literal_bytes SERVER_OK_RESPONSE = ''OK'' @ [CHR 0x0A, NUL]"
    by (simp add: literal_bytes_def SERVER_OK_RESPONSE_def sizeof_literal_def)
  have snd: "sys_send env 0 (literal_bytes SERVER_OK_RESPONSE) = (4, [''OK'' @ [CHR 0x0A, NUL]])"
    using assms(3) unfolding lb by (simp add: sys_send_def Let_def min_def)
  show ?thesis
    using assms(1,2) by (auto simp: server_op_process_def snd)
qed

text \<open>
  C6. The claim: after a SET or DEL that the backend completed, the bytes written to the
  client socket are exactly \<open>OK\<close> and a newline, and nothing else. The code sends
  \<open>sizeof("OK\\n")\<close> bytes, which is 4: the socket receives \<open>OK\<close>, the newline and a
  NUL byte.
\<close>

theorem C6_ok_response_has_four_bytes:
  "map_option sent (dict_server_start_recv no_fault no_files (''SET k v'' @ [CHR 0x0A]))
     = Some [[CHR ''O'', CHR ''K'', CHR 0x0A, CHR 0x00]] \<and>
   map_option sent (dict_server_start_recv no_fault (no_files(''k'' \<mapsto> ''v'')) (''DEL k'' @ [CHR 0x0A]))
     = Some [[CHR ''O'', CHR ''K'', CHR 0x0A, CHR 0x00]]"
  by code_simp

subsection \<open>The response to GET\<close>

text \<open>
  What goes out for a GET of a key whose file holds \<open>v\<close>, when the value has no NUL
  byte and leaves room in the 128-byte buffer for the newline and the terminator, and no
  system call fails or falls short: the four bytes of the OK response, then the value and
  a newline.
\<close>

lemma strlen_filled:
  assumes "NUL \<notin> set v" and "0 < n"
  shows "strlen (v @ replicate n NUL) = Some (length v)"
proof -
  have v: "\<And>x. x \<in> set v \<Longrightarrow> x \<noteq> NUL" using assms(1) by auto
  from assms(2) obtain m where n: "n = Suc m" by (cases n) auto
  have "takeWhile (\<lambda>c. c \<noteq> NUL) (v @ replicate n NUL) = v"
    using v by (simp add: n)
  then show ?thesis using assms(2) by (simp add: strlen_def)
qed

lemma get_response:
  assumes "files k = Some v" and "v \<noteq> []" and "NUL \<notin> set v" and "length v \<le> 126"
    and "0 \<le> open_ret env" and "read_ret env (length v) = int (length v)"
    and "\<And>i msg. int (length msg) \<le> send_ret env i msg"
  shows "server_op_process env files (Some \<lparr>op = SERVER_OP_GET, args = (Some k, None)\<rparr>) =
           Some \<lparr>p_ret = SERVER_OK, sent = [literal_bytes SERVER_OK_RESPONSE, v @ [CHR 0x0A]],
                 store = files\<rparr>"
proof -
  let ?d = "\<lparr>op = SERVER_OP_GET, args = (Some k, None)\<rparr>"
  let ?n = "128 - length v"
  have rc: "read_count env v 128 = int (length v)"
    using assms(4,6) by (simp add: read_count_def)
  have buf: "take (length v) v @ drop (length v) (replicate 128 NUL) = v @ replicate ?n NUL"
    by simp
  have be: "server_op_backend env files ?d (replicate 128 NUL) =
              Some (SERVER_OK, v @ replicate ?n NUL, files)"
    using assms(1,2,4,5) rc
    by (simp add: server_op_backend_def server_read_key_value_def sys_open_rdonly_def
          sys_read_def Let_def)
  have send: "sys_send env i msg = (int (length msg), [msg])" if "msg \<noteq> []" for i msg
  proof -
    have "min (send_ret env i msg) (int (length msg)) = int (length msg)"
      using assms(7) [of msg i] by simp
    with that show ?thesis by (simp add: sys_send_def Let_def)
  qed
  have lb: "literal_bytes SERVER_OK_RESPONSE \<noteq> []"
    by (simp add: literal_bytes_def SERVER_OK_RESPONSE_def sizeof_literal_def)
  have sl: "strlen (v @ replicate ?n NUL) = Some (length v)"
    using assms(3,4) by (intro strlen_filled) simp_all
  have n2: "?n = Suc (Suc (126 - length v))" using assms(4) by simp
  have cat: "strcat (v @ replicate ?n NUL) [CHR 0x0A] =
               Some (v @ [CHR 0x0A] @ replicate (127 - length v) NUL)"
  proof -
    have "127 - length v = Suc (126 - length v)" using assms(4) by simp
    then have "NUL # replicate (126 - length v) NUL = replicate (127 - length v) NUL"
      by simp
    then show ?thesis
      using assms(4) unfolding strcat_def sl by (simp add: n2)
  qed
  have nl: "NUL \<notin> set (v @ [CHR 0x0A])" using assms(3) by (simp add: NUL_def)
  have sl2: "strlen ((v @ [CHR 0x0A]) @ replicate (127 - length v) NUL) = Some (length (v @ [CHR 0x0A]))"
    using assms(4) nl by (intro strlen_filled) simp_all
  show ?thesis
    using send [OF lb, of 0] send [of "v @ [CHR 0x0A]" 1] sl2
    by (simp add: server_op_process_def be cat lb)
qed

subsection \<open>Requests without a keyword\<close>

lemma sint_of_nat_small: "n < 128 \<Longrightarrow> sint (of_nat n :: 32 word) = int n"
  by (simp add: signed_of_nat signed_take_bit_int_eq_self)

text \<open>
  C2, as the claim states it: for a received message without any of the three keywords,
  such as \<open>FOO bar\<close> and a newline, the server sends \<open>ERROR:\<close> and the code of
  \<open>SERVER_E_INVALID\<close> on the client socket. The receive loop calls
  \<open>server_op_process\<close>, the only function that sends, only when the parser returned 0:
  for this request nothing is sent.
\<close>

theorem C2_unknown_command_counterexample:
  "map_option sent (dict_server_start_recv no_fault no_files (''FOO bar'' @ [CHR 0x0A])) = Some [] \<and>
   map_option p_ret (dict_server_start_recv no_fault no_files (''FOO bar'' @ [CHR 0x0A]))
     = Some SERVER_E_INVALID"
  by code_simp

text \<open>
  C2, amended: for every received message of 4 to 127 bytes whose buffer contains none of
  the substrings GET, SET, DEL, the parser returns \<open>SERVER_E_INVALID\<close>, whose numeric
  code is 5; the server sends nothing on the client socket and leaves the files as they
  are.
\<close>

theorem C2_unknown_command_not_answered:
  assumes "4 \<le> length received" and "length received < SERVER_BUFFER_SIZE"
    and "\<not> sublist SERVER_GET_OP_STRING (takeWhile (\<lambda>c. c \<noteq> NUL) received)"
    and "\<not> sublist SERVER_SET_OP_STRING (takeWhile (\<lambda>c. c \<noteq> NUL) received)"
    and "\<not> sublist SERVER_DEL_OP_STRING (takeWhile (\<lambda>c. c \<noteq> NUL) received)"
  shows "dict_server_start_recv env files received =
           Some \<lparr>p_ret = SERVER_E_INVALID, sent = [], store = files\<rparr> \<and>
         err_code SERVER_E_INVALID = 5"
proof -
  from assms(2) have small: "length received < 128" by (simp add: SERVER_BUFFER_SIZE_def)
  have "sint (of_nat (length received) :: 32 word) = int (length received)"
    using small by (rule sint_of_nat_small)
  with assms(1)
  have valid: "\<not> size_t_of_int (of_nat (length received)) < sizeof_literal SERVER_GET_OP_STRING"
    by (simp add: size_check_iff)
  have none: "detect_op (takeWhile (\<lambda>c. c \<noteq> NUL) received) = SERVER_OP_NONE"
    using assms(3-5) by (simp add: detect_op_cases)
  have "ret (server_op_check (Some (takeWhile (\<lambda>c. c \<noteq> NUL) received))
               (of_nat (length received)) (Some zero_digest)) = SERVER_E_INVALID"
    unfolding check_valid [OF valid] by (simp add: Let_def none)
  then show ?thesis
    using assms(2) by (simp add: dict_server_start_recv_def Let_def)
qed

theorem C2_unknown_command_not_answered_witness:
  "dict_server_start_recv no_fault no_files (''FOO bar'' @ [CHR 0x0A]) =
     Some \<lparr>p_ret = SERVER_E_INVALID, sent = [], store = no_files\<rparr>"
proof -
  have cs: "takeWhile (\<lambda>c. c \<noteq> NUL) (''FOO bar'' @ [CHR 0x0A]) = ''FOO bar'' @ [CHR 0x0A]"
    by (simp add: NUL_def)
  have g: "\<not> sublist SERVER_GET_OP_STRING (''FOO bar'' @ [CHR 0x0A])"
    unfolding SERVER_GET_OP_STRING_def by code_simp
  have s: "\<not> sublist SERVER_SET_OP_STRING (''FOO bar'' @ [CHR 0x0A])"
    unfolding SERVER_SET_OP_STRING_def by code_simp
  have d: "\<not> sublist SERVER_DEL_OP_STRING (''FOO bar'' @ [CHR 0x0A])"
    unfolding SERVER_DEL_OP_STRING_def by code_simp
  have l: "4 \<le> length (''FOO bar'' @ [CHR 0x0A])"
          "length (''FOO bar'' @ [CHR 0x0A]) < SERVER_BUFFER_SIZE"
    by (simp_all add: SERVER_BUFFER_SIZE_def)
  from C2_unknown_command_not_answered [OF l, unfolded cs, OF g s d, of no_fault no_files]
  show ?thesis by simp
qed


end
